theory Spec2Isabelle
  imports Main
begin

section \<open>Python strings\<close>

text \<open>
  A Python \<^verbatim>\<open>str\<close> is a sequence of Unicode code points, and \<^verbatim>\<open>len\<close> counts code
  points. A string is therefore a list of code points, each a natural number. A
  literal of the source is written \<open>py ''...''\<close>.
\<close>

type_synonym pystr = "nat list"

abbreviation py :: "string \<Rightarrow> pystr" where
  "py s \<equiv> map of_char s"

text \<open>
  The characters that \<^verbatim>\<open>str.strip()\<close> removes and that \<^verbatim>\<open>\s\<close> matches in a
  \<^verbatim>\<open>str\<close> pattern: tab to carriage return, the four separators U+001C to U+001F, space,
  U+0085, U+00A0, U+1680, U+2000 to U+200A, U+2028, U+2029, U+202F, U+205F, U+3000.
\<close>

definition isspace :: "nat \<Rightarrow> bool" where
  "isspace c \<longleftrightarrow>
     (9 \<le> c \<and> c \<le> 13) \<or> (28 \<le> c \<and> c \<le> 32) \<or> c = 133 \<or> c = 160 \<or> c = 5760 \<or>
     (8192 \<le> c \<and> c \<le> 8202) \<or> c = 8232 \<or> c = 8233 \<or> c = 8239 \<or> c = 8287 \<or> c = 12288"

text \<open>\<^verbatim>\<open>s.strip()\<close>: leading whitespace goes, then trailing whitespace.\<close>

definition strip :: "pystr \<Rightarrow> pystr" where
  "strip s = rev (dropWhile isspace (rev (dropWhile isspace s)))"

text \<open>Truthiness of an \<^verbatim>\<open>Optional[str]\<close>: \<^verbatim>\<open>None\<close> and \<^verbatim>\<open>''\<close> are falsy.\<close>

definition truthy :: "pystr option \<Rightarrow> bool" where
  "truthy v = (case v of None \<Rightarrow> False | Some s \<Rightarrow> s \<noteq> [])"

text \<open>\<^verbatim>\<open>str(n)\<close> for an integer: decimal digits, a minus sign when negative.\<close>

function str_nat :: "nat \<Rightarrow> pystr" where
  "str_nat n = (if n < 10 then [48 + n] else str_nat (n div 10) @ [48 + n mod 10])"
  by pat_completeness auto
termination
  by (relation "measure id") auto

declare str_nat.simps [simp del]

definition str_int :: "int \<Rightarrow> pystr" where
  "str_int i = (if i < 0 then 45 # str_nat (nat (- i)) else str_nat (nat i))"

section \<open>The three regular-expression substitutions\<close>

text \<open>
  \<^verbatim>\<open>re.sub(r'\s+', ' ', content)\<close>: the scan goes left to right; at a whitespace
  character the greedy \<^verbatim>\<open>\s+\<close> takes the whole run, which becomes one space.
\<close>

function re_sub_ws :: "pystr \<Rightarrow> pystr" where
  "re_sub_ws [] = []"
| "re_sub_ws (c # cs) =
     (if isspace c then 32 # re_sub_ws (dropWhile isspace cs) else c # re_sub_ws cs)"
  by pat_completeness auto
termination
  by (relation "measure length") (auto simp: less_Suc_eq_le length_dropWhile_le)

text \<open>
  \<^verbatim>\<open>re.sub(r'\n\s*\n\s*\n', '\n\n', content)\<close>. A match starts at a newline. Both
  \<^verbatim>\<open>\s*\<close> are greedy and backtrack inside the whitespace run that follows, so the
  pattern matches when that run holds two more newlines, and the match then ends
  with the last newline of the run. \<open>blank_lines_match cs\<close> is the number of
  characters of \<open>cs\<close> (the text after the first newline) inside the match.
\<close>

definition blank_lines_match :: "pystr \<Rightarrow> nat option" where
  "blank_lines_match cs =
     (let ws = takeWhile isspace cs in
      if 2 \<le> count_list ws 10
      then Some (length ws - length (takeWhile (\<lambda>x. x \<noteq> 10) (rev ws)))
      else None)"

function re_sub_blank_lines :: "pystr \<Rightarrow> pystr" where
  "re_sub_blank_lines [] = []"
| "re_sub_blank_lines (c # cs) =
     (if c = 10 then
        (case blank_lines_match cs of
           Some n \<Rightarrow> 10 # 10 # re_sub_blank_lines (drop n cs)
         | None \<Rightarrow> c # re_sub_blank_lines cs)
      else c # re_sub_blank_lines cs)"
  by pat_completeness auto
termination
  by (relation "measure length") auto

text \<open>
  The boilerplate pattern of the fallback extractor,
  \<^verbatim>\<open>(Skip to content|Copyright|All rights reserved|Privacy Policy|Terms of Service).*\<close>
  with \<^verbatim>\<open>re.IGNORECASE\<close>. The alternatives, in the order of the pattern:
\<close>

definition boilerplate_markers :: "pystr list" where
  "boilerplate_markers =
     [py ''Skip to content'', py ''Copyright'', py ''All rights reserved'',
      py ''Privacy Policy'', py ''Terms of Service'']"

text \<open>
  A literal \<open>p\<close> of an ASCII pattern against a character \<open>c\<close> of the text under
  \<^verbatim>\<open>re.IGNORECASE\<close>: the lower-cased character must be the lower-cased literal. Beside
  the 52 ASCII letters, four characters fold onto ASCII letters in Python's \<^verbatim>\<open>re\<close>:
  U+0130 and U+0131 onto \<open>i\<close>, U+017F onto \<open>s\<close>, U+212A onto \<open>k\<close>.
\<close>

definition ascii_lower :: "nat \<Rightarrow> nat" where
  "ascii_lower c = (if 65 \<le> c \<and> c \<le> 90 then c + 32 else c)"

definition ignorecase_eq :: "nat \<Rightarrow> nat \<Rightarrow> bool" where
  "ignorecase_eq p c \<longleftrightarrow>
     (let lo = ascii_lower p in
      ascii_lower c = lo \<or> (lo = 105 \<and> (c = 304 \<or> c = 305)) \<or> (lo = 115 \<and> c = 383) \<or>
      (lo = 107 \<and> c = 8490))"

text \<open>A literal phrase matched at the start of the text: the rest of the text, or no match.\<close>

fun match_literal :: "pystr \<Rightarrow> pystr \<Rightarrow> pystr option" where
  "match_literal [] s = Some s"
| "match_literal (p # ps) [] = None"
| "match_literal (p # ps) (c # cs) = (if ignorecase_eq p c then match_literal ps cs else None)"

text \<open>The alternation: the first alternative that matches here.\<close>

fun match_alternatives :: "pystr list \<Rightarrow> pystr \<Rightarrow> pystr option" where
  "match_alternatives [] s = None"
| "match_alternatives (m # ms) s =
     (case match_literal m s of Some rest \<Rightarrow> Some rest | None \<Rightarrow> match_alternatives ms s)"

text \<open>The whole pattern: a marker, then \<^verbatim>\<open>.*\<close>, which runs up to the next newline.\<close>

definition match_boilerplate :: "pystr \<Rightarrow> pystr option" where
  "match_boilerplate s =
     (case match_alternatives boilerplate_markers s of
        Some rest \<Rightarrow> Some (dropWhile (\<lambda>c. c \<noteq> 10) rest)
      | None \<Rightarrow> None)"

lemma match_literal_length:
  "match_literal m s = Some rest \<Longrightarrow> length s = length m + length rest"
  by (induction m s rule: match_literal.induct) (auto split: if_splits)

lemma match_alternatives_length:
  "match_alternatives ms s = Some rest \<Longrightarrow> \<exists>m \<in> set ms. length s = length m + length rest"
  by (induction ms) (auto split: option.splits dest: match_literal_length)

lemma match_boilerplate_shorter:
  "match_boilerplate s = Some rest \<Longrightarrow> length rest < length s"
proof -
  assume a: "match_boilerplate s = Some rest"
  then obtain r where r: "match_alternatives boilerplate_markers s = Some r"
    and rest: "rest = dropWhile (\<lambda>c. c \<noteq> 10) r"
    by (auto simp: match_boilerplate_def split: option.splits)
  from match_alternatives_length [OF r]
  obtain m where m: "m \<in> set boilerplate_markers" and len: "length s = length m + length r"
    by blast
  from m have "0 < length m"
    by (auto simp: boilerplate_markers_def)
  moreover have "length rest \<le> length r"
    unfolding rest by (rule length_dropWhile_le)
  ultimately show ?thesis
    using len by linarith
qed

text \<open>
  \<^verbatim>\<open>re.sub(pattern, '', content, flags=re.IGNORECASE)\<close>: every match, leftmost
  first, is deleted; the scan goes on after the match.
\<close>

function re_sub_boilerplate :: "pystr \<Rightarrow> pystr" where
  "re_sub_boilerplate [] = []"
| "re_sub_boilerplate (c # cs) =
     (case match_boilerplate (c # cs) of
        Some rest \<Rightarrow> re_sub_boilerplate rest
      | None \<Rightarrow> c # re_sub_boilerplate cs)"
  by pat_completeness auto
termination re_sub_boilerplate
  by (relation "measure length") (auto dest: match_boilerplate_shorter)

section \<open>Exceptions\<close>

text \<open>
  The exceptions the program can meet, each with its \<^verbatim>\<open>str(e)\<close>. In \<^verbatim>\<open>requests\<close>,
  \<^verbatim>\<open>ConnectTimeout\<close> is a subclass of both \<^verbatim>\<open>ConnectionError\<close> and \<^verbatim>\<open>Timeout\<close>, and
  \<^verbatim>\<open>ReadTimeout\<close> of \<^verbatim>\<open>Timeout\<close>. An \<^verbatim>\<open>HTTPError\<close> carries the status code and the
  reason phrase of its response. Every other exception is \<open>OtherException\<close>.
\<close>

datatype py_exception =
    ReadTimeout pystr
  | ConnectTimeout pystr
  | ConnectionError pystr
  | HTTPError pystr int pystr
  | OtherException pystr

fun str_e :: "py_exception \<Rightarrow> pystr" where
  "str_e (ReadTimeout m) = m"
| "str_e (ConnectTimeout m) = m"
| "str_e (ConnectionError m) = m"
| "str_e (HTTPError m code reason) = m"
| "str_e (OtherException m) = m"

fun isinstance_Timeout :: "py_exception \<Rightarrow> bool" where
  "isinstance_Timeout (ReadTimeout m) = True"
| "isinstance_Timeout (ConnectTimeout m) = True"
| "isinstance_Timeout e = False"

fun isinstance_ConnectionError :: "py_exception \<Rightarrow> bool" where
  "isinstance_ConnectionError (ConnectionError m) = True"
| "isinstance_ConnectionError (ConnectTimeout m) = True"
| "isinstance_ConnectionError e = False"

section \<open>The collaborators\<close>

text \<open>
  What \<^verbatim>\<open>urlparse\<close> returns, as far as \<^verbatim>\<open>is_valid_url\<close> reads it.
\<close>

record parse_result =
  scheme :: pystr
  netloc :: pystr

text \<open>
  The dictionary \<^verbatim>\<open>scrape_url\<close> returns. Where the code distinguishes them, a key is
  absent, holds \<^verbatim>\<open>None\<close>, or holds a value: \<^verbatim>\<open>d.get(k, default)\<close> gives the default
  only for an absent key. Where the code reads a key with \<^verbatim>\<open>d.get(k)\<close> and only tests
  or returns the result, absent and \<^verbatim>\<open>None\<close> are the same and the field is an option.
  \<open>sr_success\<close> is the truth value of \<^verbatim>\<open>scrape_result.get('success', False)\<close>;
  \<open>d_metadata\<close> is the \<^verbatim>\<open>metadata\<close> dictionary, given by what its
  \<^verbatim>\<open>get('title')\<close> returns.
\<close>

datatype 'a entry = Absent | Null | Value 'a

record scrape_data =
  d_title :: "pystr option"
  d_metadata :: "pystr option entry"
  d_markdown :: "pystr option"
  d_content :: "pystr option"

record scrape_result =
  sr_success :: bool
  sr_error :: "pystr entry"
  sr_data :: "scrape_data entry"

text \<open>
  An element of the parsed document: \<^verbatim>\<open>get_text()\<close>,
  \<^verbatim>\<open>get_text(separator=' ', strip=True)\<close> and its attributes. The document itself, after
  the unwanted elements are decomposed, is what the two queries of the source
  return on it: \<^verbatim>\<open>select_one(selector)\<close> and \<^verbatim>\<open>find('body')\<close>.
\<close>

record element =
  get_text :: pystr
  get_text_sep_strip :: pystr
  attrs :: "(pystr \<times> pystr) list"

record soup =
  select_one :: "pystr \<Rightarrow> element option"
  find_body :: "element option"

text \<open>
  The HTTP response: status code, reason phrase, and the document parsed from its
  body. \<^verbatim>\<open>raise_for_status\<close> raises an \<^verbatim>\<open>HTTPError\<close> for a status from 400 to 599.
\<close>

record response =
  status_code :: int
  reason :: pystr
  parsed :: soup

definition raise_for_status :: "pystr \<Rightarrow> response \<Rightarrow> py_exception + unit" where
  "raise_for_status url r =
     (if 400 \<le> status_code r \<and> status_code r < 500 then
        Inl (HTTPError (str_int (status_code r) @ py '' Client Error: '' @ reason r @
                        py '' for url: '' @ url) (status_code r) (reason r))
      else if 500 \<le> status_code r \<and> status_code r < 600 then
        Inl (HTTPError (str_int (status_code r) @ py '' Server Error: '' @ reason r @
                        py '' for url: '' @ url) (status_code r) (reason r))
      else Inr ())"

text \<open>The request of the chat completion: system message, user message, model.\<close>

record chat_request =
  system_content :: pystr
  user_content :: pystr
  model :: pystr

text \<open>
  The summarizer object. \<open>firecrawl_client\<close> is \<open>None\<close> or the client, given by
  what its \<^verbatim>\<open>scrape_url\<close> answers; \<open>session_get\<close> is \<^verbatim>\<open>self.session.get\<close>;
  \<open>groq_create\<close> is \<^verbatim>\<open>self.groq_client.chat.completions.create\<close>, answering with
  the content of the first choice.
\<close>

record summarizer =
  groq_create :: "chat_request \<Rightarrow> py_exception + pystr"
  firecrawl_client :: "(pystr \<Rightarrow> py_exception + scrape_result) option"
  session_get :: "pystr \<Rightarrow> py_exception + response"

text \<open>The services outside the program, which the constructors connect to.\<close>

record services =
  Groq :: "pystr \<Rightarrow> chat_request \<Rightarrow> py_exception + pystr"
  FirecrawlApp :: "pystr \<Rightarrow> pystr \<Rightarrow> py_exception + scrape_result"
  requests_get :: "pystr \<Rightarrow> py_exception + response"

text \<open>\<^verbatim>\<open>BlogSummarizer.__init__\<close>: the Firecrawl client exists only for a truthy key.\<close>

definition init :: "services \<Rightarrow> pystr \<Rightarrow> pystr option \<Rightarrow> summarizer" where
  "init w groq_api_key firecrawl_api_key =
     \<lparr> groq_create = Groq w groq_api_key,
       firecrawl_client =
         (case firecrawl_api_key of
            None \<Rightarrow> None
          | Some k \<Rightarrow> if k \<noteq> [] then Some (FirecrawlApp w k) else None),
       session_get = requests_get w \<rparr>"

text \<open>The calls that leave the program, in the order they are made.\<close>

datatype call = Scrape_url pystr | Session_get pystr

type_synonym extraction = "pystr option \<times> pystr option \<times> pystr option"

section \<open>URL validator\<close>

text \<open>
  \<^verbatim>\<open>is_valid_url\<close>. \<^verbatim>\<open>urlparse\<close> belongs to the standard library and is a parameter:
  it returns a parse result or raises.
\<close>

definition is_valid_url :: "(pystr \<Rightarrow> py_exception + parse_result) \<Rightarrow> pystr \<Rightarrow> bool" where
  "is_valid_url urlparse url =
     (case urlparse url of
        Inr result \<Rightarrow> scheme result \<noteq> [] \<and> netloc result \<noteq> []
      | Inl e \<Rightarrow> False)"

section \<open>Primary extractor\<close>

text \<open>Lines 82 to 86: the clean-up of the markdown content.\<close>

definition clean_markdown :: "pystr \<Rightarrow> pystr" where
  "clean_markdown content = strip (re_sub_ws (re_sub_blank_lines content))"

text \<open>
  The \<^verbatim>\<open>AttributeError\<close> of a call of \<^verbatim>\<open>.get\<close> on \<^verbatim>\<open>None\<close>.
\<close>

definition attribute_error_get :: py_exception where
  "attribute_error_get =
     OtherException ([39] @ py ''NoneType'' @ [39] @ py '' object has no attribute '' @
                     [39] @ py ''get'' @ [39])"

text \<open>
  Lines 70 to 88, from the \<^verbatim>\<open>data\<close> dictionary: the extraction, or the exception
  raised on the way. The title is \<^verbatim>\<open>data.get('title')\<close> when that is truthy;
  otherwise \<^verbatim>\<open>data.get('metadata', {}).get('title')\<close> is evaluated, which raises when
  \<^verbatim>\<open>metadata\<close> holds \<^verbatim>\<open>None\<close>.
\<close>

definition extract_from_data :: "scrape_data \<Rightarrow> py_exception + extraction" where
  "extract_from_data data =
     (case (if truthy (d_title data) then Inr (d_title data)
            else (case d_metadata data of
                    Null \<Rightarrow> Inl attribute_error_get
                  | Absent \<Rightarrow> Inr None
                  | Value t \<Rightarrow> Inr t)) of
        Inl e \<Rightarrow> Inl e
      | Inr title \<Rightarrow>
          (let content = (if \<not> truthy (d_markdown data) then d_content data
                          else d_markdown data)
           in (case content of
                 None \<Rightarrow> Inr (None, None, Some (py ''No content could be extracted from the page''))
               | Some c \<Rightarrow>
                   (if c = [] then
                      Inr (None, None, Some (py ''No content could be extracted from the page''))
                    else Inr (title, Some (clean_markdown c), None)))))"

text \<open>
  Lines 65 to 88, from the dictionary the call returned. An absent \<^verbatim>\<open>data\<close> key
  gives the empty dictionary; a \<^verbatim>\<open>data\<close> key that holds \<^verbatim>\<open>None\<close> makes the next
  \<^verbatim>\<open>.get\<close> raise. In the message of a failed scrape, an \<^verbatim>\<open>error\<close> key that holds
  \<^verbatim>\<open>None\<close> is printed as \<^verbatim>\<open>None\<close>.
\<close>

definition extract_from_result :: "scrape_result \<Rightarrow> py_exception + extraction" where
  "extract_from_result scrape_result =
     (if \<not> sr_success scrape_result then
        Inr (None, None,
             Some (py ''Firecrawl failed to scrape the URL: '' @
                   (case sr_error scrape_result of
                      Absent \<Rightarrow> py ''Unknown error''
                    | Null \<Rightarrow> py ''None''
                    | Value m \<Rightarrow> m)))
      else
        (case sr_data scrape_result of
           Null \<Rightarrow> Inl attribute_error_get
         | Absent \<Rightarrow>
             extract_from_data \<lparr> d_title = None, d_metadata = Absent,
                                 d_markdown = None, d_content = None \<rparr>
         | Value data \<Rightarrow> extract_from_data data))"

text \<open>
  \<^verbatim>\<open>extract_with_firecrawl\<close>: the call, then the lines above, and the \<^verbatim>\<open>except\<close>
  clause for whatever either raises. Without a client the attribute access raises
  inside the \<^verbatim>\<open>try\<close> and no call is made.
\<close>

definition extract_with_firecrawl ::
  "summarizer \<Rightarrow> pystr \<Rightarrow> call list \<Rightarrow> extraction \<times> call list" where
  "extract_with_firecrawl self url tr =
     (case firecrawl_client self of
        None \<Rightarrow>
          ((None, None,
            Some (py ''Firecrawl error: '' @ [39] @ py ''NoneType'' @ [39] @
                  py '' object has no attribute '' @ [39] @ py ''scrape_url'' @ [39])), tr)
      | Some scrape_url \<Rightarrow>
          (case (case scrape_url url of
                   Inl e \<Rightarrow> Inl e
                 | Inr scrape_result \<Rightarrow> extract_from_result scrape_result) of
             Inl e \<Rightarrow>
               ((None, None, Some (py ''Firecrawl error: '' @ str_e e)), tr @ [Scrape_url url])
           | Inr result \<Rightarrow> (result, tr @ [Scrape_url url])))"

section \<open>Fallback extractor\<close>

definition title_selectors :: "pystr list" where
  "title_selectors =
     [py ''title'', py ''h1'', py ''.post-title'', py ''.entry-title'', py ''.article-title'',
      py ''[property=\"og:title\"]'', py ''.headline'', py ''.page-title'']"

definition content_selectors :: "pystr list" where
  "content_selectors =
     [py ''article'', py ''.post-content'', py ''.entry-content'', py ''.article-content'',
      py ''.content'', py ''main'', py ''.post'', py ''.blog-post'', py ''[role=\"main\"]'',
      py ''.story-body'', py ''.article-body'', py ''.post-body'']"

text \<open>
  \<^verbatim>\<open>hasattr(title_elem, 'get_text')\<close>: what \<^verbatim>\<open>select_one\<close> returns is a \<^verbatim>\<open>Tag\<close>, and
  every \<^verbatim>\<open>Tag\<close> has the method \<^verbatim>\<open>get_text\<close>, a \<^verbatim>\<open>meta\<close> element too.
\<close>

definition hasattr_get_text :: "element \<Rightarrow> bool" where
  "hasattr_get_text e = True"

text \<open>\<^verbatim>\<open>title_elem.get('content', '')\<close>.\<close>

definition get_content_attr :: "element \<Rightarrow> pystr" where
  "get_content_attr e = (case map_of (attrs e) (py ''content'') of None \<Rightarrow> [] | Some v \<Rightarrow> v)"

text \<open>
  The title loop, lines 112 to 117, from the selectors still to try and the current
  value of \<^verbatim>\<open>title\<close>.
\<close>

fun title_loop :: "soup \<Rightarrow> pystr list \<Rightarrow> pystr option \<Rightarrow> pystr option" where
  "title_loop sp [] title = title"
| "title_loop sp (selector # rest) title =
     (case select_one sp selector of
        None \<Rightarrow> title_loop sp rest title
      | Some title_elem \<Rightarrow>
          (let t = (if hasattr_get_text title_elem then strip (get_text title_elem)
                    else strip (get_content_attr title_elem))
           in if t \<noteq> [] then Some t else title_loop sp rest (Some t)))"

text \<open>The content loop, lines 127 to 132.\<close>

fun content_loop :: "soup \<Rightarrow> pystr list \<Rightarrow> pystr option \<Rightarrow> pystr option" where
  "content_loop sp [] content = content"
| "content_loop sp (selector # rest) content =
     (case select_one sp selector of
        None \<Rightarrow> content_loop sp rest content
      | Some content_elem \<Rightarrow>
          (let c = get_text_sep_strip content_elem
           in if length c > 200 then Some c else content_loop sp rest (Some c)))"

text \<open>Lines 119 to 138: the content loop, then the fall back to the body.\<close>

definition resolve_content :: "soup \<Rightarrow> pystr option" where
  "resolve_content sp =
     (let content = content_loop sp content_selectors None in
      if \<not> truthy content \<or> (case content of None \<Rightarrow> False | Some c \<Rightarrow> length c < 200) then
        (case find_body sp of
           Some body \<Rightarrow> Some (get_text_sep_strip body)
         | None \<Rightarrow> content)
      else content)"

text \<open>Lines 140 to 144: the clean-up of the resolved content.\<close>

definition clean_content :: "pystr option \<Rightarrow> pystr option" where
  "clean_content content =
     (case content of
        None \<Rightarrow> None
      | Some c \<Rightarrow> if c \<noteq> [] then Some (strip (re_sub_boilerplate (re_sub_ws c))) else Some c)"

text \<open>The \<^verbatim>\<open>except\<close> clauses of lines 148 to 156, in their order.\<close>

definition fallback_except :: "py_exception \<Rightarrow> pystr" where
  "fallback_except e =
     (if isinstance_Timeout e then
        py ''Request timeout - the website took too long to respond''
      else if isinstance_ConnectionError e then
        py ''Connection error - unable to reach the website''
      else
        (case e of
           HTTPError m code phrase \<Rightarrow> py ''HTTP error '' @ str_int code @ py '' - '' @ phrase
         | _ \<Rightarrow> py ''Error extracting content: '' @ str_e e))"

definition extract_with_fallback ::
  "summarizer \<Rightarrow> pystr \<Rightarrow> call list \<Rightarrow> extraction \<times> call list" where
  "extract_with_fallback self url tr =
     (case session_get self url of
        Inl e \<Rightarrow> ((None, None, Some (fallback_except e)), tr @ [Session_get url])
      | Inr resp \<Rightarrow>
          (case raise_for_status url resp of
             Inl e \<Rightarrow> ((None, None, Some (fallback_except e)), tr @ [Session_get url])
           | Inr u \<Rightarrow>
               (let sp = parsed resp;
                    title = title_loop sp title_selectors None;
                    content = clean_content (resolve_content sp)
                in ((title, content, None), tr @ [Session_get url]))))"

section \<open>Extraction orchestrator\<close>

text \<open>
  The test of line 166:
  \<^verbatim>\<open>not error and content and len(content.strip()) > 100\<close>.
\<close>

definition primary_accepted :: "pystr option \<Rightarrow> pystr option \<Rightarrow> bool" where
  "primary_accepted content error \<longleftrightarrow>
     \<not> truthy error \<and>
     (case content of None \<Rightarrow> False | Some c \<Rightarrow> c \<noteq> [] \<and> length (strip c) > 100)"

type_synonym extraction_result = "pystr option \<times> pystr option \<times> pystr option \<times> pystr"

definition basic_scraping ::
  "summarizer \<Rightarrow> pystr \<Rightarrow> call list \<Rightarrow> extraction_result \<times> call list" where
  "basic_scraping self url tr =
     (case extract_with_fallback self url tr of
        ((title, content, error), tr') \<Rightarrow> ((title, content, error, py ''Basic Scraping''), tr'))"

definition extract_content ::
  "summarizer \<Rightarrow> pystr \<Rightarrow> call list \<Rightarrow> extraction_result \<times> call list" where
  "extract_content self url tr =
     (case firecrawl_client self of
        Some client \<Rightarrow>
          (case extract_with_firecrawl self url tr of
             ((title, content, error), tr') \<Rightarrow>
               if primary_accepted content error
               then ((title, content, None, py ''Firecrawl''), tr')
               else basic_scraping self url tr')
      | None \<Rightarrow> basic_scraping self url tr)"

section \<open>Summarization request builder\<close>

text \<open>Lines 178 to 180.\<close>

definition max_content_length :: nat where
  "max_content_length = 15000"

definition truncate_content :: "pystr \<Rightarrow> pystr" where
  "truncate_content content =
     (if length content > max_content_length
      then take max_content_length content @ py ''...''
      else content)"

definition length_instructions :: "(pystr \<times> pystr) list" where
  "length_instructions =
     [(py ''short'',
       py ''Provide a concise 2-3 sentence summary highlighting only the most important points.''),
      (py ''medium'',
       py ''Provide a comprehensive summary in 1-2 paragraphs (4-6 sentences) covering the main points and key insights.''),
      (py ''long'',
       py ''Provide a detailed summary in 2-3 paragraphs (6-10 sentences) covering main points, supporting details, and key takeaways.'')]"

text \<open>
  Line 189: \<^verbatim>\<open>length_instructions.get(summary_length, length_instructions["medium"])\<close>.
  The default is looked up first, and a missing key there would raise \<^verbatim>\<open>KeyError\<close>.
\<close>

definition length_instruction :: "pystr \<Rightarrow> py_exception + pystr" where
  "length_instruction summary_length =
     (case map_of length_instructions (py ''medium'') of
        None \<Rightarrow> Inl (OtherException ([39] @ py ''medium'' @ [39]))
      | Some dflt \<Rightarrow>
          (case map_of length_instructions summary_length of
             None \<Rightarrow> Inr dflt
           | Some v \<Rightarrow> Inr v))"

text \<open>The prompt of lines 191 to 203, from the resolved instruction.\<close>

definition build_prompt :: "pystr \<Rightarrow> pystr \<Rightarrow> pystr \<Rightarrow> pystr" where
  "build_prompt instruction title content =
     py ''Please summarize the following blog post/article. '' @ instruction @
     [10, 10] @ py ''Title: '' @ (if title \<noteq> [] then title else py ''Article'') @
     [10, 10] @ py ''Content: '' @ content @
     [10, 10] @ py ''Focus on:'' @
     [10] @ py ''- Main arguments or points'' @
     [10] @ py ''- Key insights or findings  '' @
     [10] @ py ''- Important conclusions or takeaways'' @
     [10] @ py ''- Actionable information if present'' @
     [10, 10] @ py ''Summary:''"

definition system_persona :: pystr where
  "system_persona =
     py ''You are an expert content summarizer. Create clear, informative summaries that capture the essence of articles while being engaging and easy to understand. Focus on the most valuable information for readers.''"

text \<open>
  The request that \<^verbatim>\<open>summarize_content\<close> builds before the call, or the exception
  raised while building it.
\<close>

definition build_request :: "pystr \<Rightarrow> pystr \<Rightarrow> pystr \<Rightarrow> py_exception + chat_request" where
  "build_request title content summary_length =
     (case length_instruction summary_length of
        Inl e \<Rightarrow> Inl e
      | Inr instruction \<Rightarrow>
          Inr \<lparr> system_content = system_persona,
                user_content = build_prompt instruction title (truncate_content content),
                model = py ''llama3-8b-8192'' \<rparr>)"

text \<open>\<^verbatim>\<open>summarize_content\<close>: every exception becomes the error of the result.\<close>

definition summarize_content ::
  "summarizer \<Rightarrow> pystr \<Rightarrow> pystr \<Rightarrow> pystr \<Rightarrow> pystr option \<times> pystr option" where
  "summarize_content self title content summary_length =
     (case build_request title content summary_length of
        Inl e \<Rightarrow> (None, Some (py ''Error generating summary: '' @ str_e e))
      | Inr request \<Rightarrow>
          (case groq_create self request of
             Inl e \<Rightarrow> (None, Some (py ''Error generating summary: '' @ str_e e))
           | Inr summary \<Rightarrow> (Some (strip summary), None)))"

section \<open>Notions of the specification, and concrete inputs\<close>

text \<open>
  A text is single-spaced when each whitespace character in it is a space that no
  other whitespace character follows.
\<close>

fun single_spaced :: "pystr \<Rightarrow> bool" where
  "single_spaced [] = True"
| "single_spaced (c # cs) =
     (if isspace c then c = 32 \<and> (case cs of [] \<Rightarrow> True | d # ds \<Rightarrow> \<not> isspace d) \<and> single_spaced cs
      else single_spaced cs)"

text \<open>
  Services for the examples: Firecrawl answers every URL with a post of 150 letters,
  and the plain request is answered with status 200 and an empty document.
\<close>

definition example_url :: pystr where
  "example_url = py ''https://example.com/post''"

definition example_article :: pystr where
  "example_article = replicate 150 120"

definition example_empty_soup :: soup where
  "example_empty_soup = \<lparr> select_one = (\<lambda>selector. None), find_body = None \<rparr>"

definition example_services :: services where
  "example_services =
     \<lparr> Groq = (\<lambda>key request. Inr (py '' A summary. '')),
       FirecrawlApp = (\<lambda>key url.
         Inr \<lparr> sr_success = True, sr_error = Absent,
               sr_data = Value \<lparr> d_title = Some (py ''A post''), d_metadata = Absent,
                                 d_markdown = Some example_article, d_content = None \<rparr> \<rparr>),
       requests_get = (\<lambda>url.
         Inr \<lparr> status_code = 200, reason = py ''OK'', parsed = example_empty_soup \<rparr>) \<rparr>"

definition example_with_key :: summarizer where
  "example_with_key = init example_services (py ''gsk'') (Some (py ''fc''))"

definition example_without_key :: summarizer where
  "example_without_key = init example_services (py ''gsk'') None"

text \<open>
  The invariant as the specification words it: exactly one of content and error is
  non-empty.
\<close>

definition exactly_one_nonempty :: "extraction_result \<Rightarrow> bool" where
  "exactly_one_nonempty r = (case r of (title, content, error, m) \<Rightarrow> truthy content \<noteq> truthy error)"

text \<open>
  A parser for the examples: it parses one absolute URL, raises on an unbalanced
  bracket, and finds neither scheme nor network location in anything else.
\<close>

definition example_urlparse :: "pystr \<Rightarrow> py_exception + parse_result" where
  "example_urlparse url =
     (if url = py ''https://example.com/post''
      then Inr \<lparr> scheme = py ''https'', netloc = py ''example.com'' \<rparr>
      else if url = py ''http://[::1''
      then Inl (OtherException (py ''Invalid IPv6 URL''))
      else Inr \<lparr> scheme = [], netloc = [] \<rparr>)"

text \<open>The failure of the transport: the exception that lines 97 and 98 raise, if any.\<close>

definition transport_failure :: "summarizer \<Rightarrow> pystr \<Rightarrow> py_exception option" where
  "transport_failure self url =
     (case session_get self url of
        Inl e \<Rightarrow> Some e
      | Inr resp \<Rightarrow> (case raise_for_status url resp of Inl e \<Rightarrow> Some e | Inr u \<Rightarrow> None))"

text \<open>
  The four error categories of the specification, and the kind of each failure: a
  connect timeout is a timeout, since the clause for \<^verbatim>\<open>Timeout\<close> comes first.
\<close>

datatype error_category = Timeout | Connection | HttpStatus | Generic

fun failure_kind :: "py_exception \<Rightarrow> error_category" where
  "failure_kind (ReadTimeout m) = Timeout"
| "failure_kind (ConnectTimeout m) = Timeout"
| "failure_kind (ConnectionError m) = Connection"
| "failure_kind (HTTPError m code phrase) = HttpStatus"
| "failure_kind (OtherException m) = Generic"

text \<open>A summarizer without Firecrawl whose every request is answered with status 404.\<close>

definition example_not_found :: summarizer where
  "example_not_found =
     \<lparr> groq_create = (\<lambda>request. Inr (py ''A summary.'')),
       firecrawl_client = None,
       session_get = (\<lambda>url.
         Inr \<lparr> status_code = 404, reason = py ''Not Found'', parsed = example_empty_soup \<rparr>) \<rparr>"

text \<open>
  A document whose only title source is
  \<^verbatim>\<open><meta property="og:title" content="Hello">\<close>: the element has no text.
\<close>

definition example_og_meta :: element where
  "example_og_meta =
     \<lparr> get_text = [], get_text_sep_strip = [],
       attrs = [(py ''property'', py ''og:title''), (py ''content'', py ''Hello'')] \<rparr>"

definition example_og_soup :: soup where
  "example_og_soup =
     \<lparr> select_one = (\<lambda>selector.
         if selector = py ''[property=\"og:title\"]'' then Some example_og_meta else None),
       find_body = None \<rparr>"

text \<open>
  A document whose \<^verbatim>\<open>article\<close> element holds exactly 200 characters of text, inside a
  body that holds more.
\<close>

definition example_container :: element where
  "example_container =
     \<lparr> get_text = replicate 200 120, get_text_sep_strip = replicate 200 120, attrs = [] \<rparr>"

definition example_body :: element where
  "example_body =
     \<lparr> get_text = replicate 200 120 @ replicate 300 121,
       get_text_sep_strip = replicate 200 120 @ 32 # replicate 300 121, attrs = [] \<rparr>"

definition example_article_soup :: soup where
  "example_article_soup =
     \<lparr> select_one = (\<lambda>selector. if selector = py ''article'' then Some example_container else None),
       find_body = Some example_body \<rparr>"

text \<open>
  A document whose \<^verbatim>\<open>article\<close> element holds exactly 200 characters of text with a
  boilerplate marker at index 100, and a summarizer without Firecrawl whose every
  request is answered with status 200 and a given document.
\<close>

definition example_marked_text :: pystr where
  "example_marked_text = replicate 100 120 @ py ''copyright'' @ replicate 91 120"

definition example_marked_container :: element where
  "example_marked_container =
     \<lparr> get_text = example_marked_text, get_text_sep_strip = example_marked_text, attrs = [] \<rparr>"

definition example_marked_soup :: soup where
  "example_marked_soup =
     \<lparr> select_one = (\<lambda>selector.
         if selector = py ''article'' then Some example_marked_container else None),
       find_body = Some example_body \<rparr>"

definition example_page :: "soup \<Rightarrow> summarizer" where
  "example_page sp =
     \<lparr> groq_create = (\<lambda>request. Inr (py ''A summary.'')),
       firecrawl_client = None,
       session_get = (\<lambda>url. Inr \<lparr> status_code = 200, reason = py ''OK'', parsed = sp \<rparr>) \<rparr>"

text \<open>
  A marker occurs in \<open>t\<close> at index \<open>i\<close>: one of the phrases, letter case ignored, is
  the piece of \<open>t\<close> that starts there.
\<close>

definition marker_at :: "pystr \<Rightarrow> nat \<Rightarrow> bool" where
  "marker_at t i \<longleftrightarrow>
     (\<exists>m \<in> set boilerplate_markers.
        i + length m \<le> length t \<and> list_all2 ignorecase_eq m (take (length m) (drop i t)))"

section \<open>Whitespace normalization\<close>

lemma dropWhile_head: "dropWhile P xs = y # ys \<Longrightarrow> \<not> P y"
  by (metis dropWhile_eq_Cons_conv)

lemma single_spaced_re_sub_ws: "single_spaced (re_sub_ws s)"
proof (induction s rule: re_sub_ws.induct)
  case 1
  show ?case by simp
next
  case (2 c cs)
  show ?case
  proof (cases "isspace c")
    case True
    have tail: "single_spaced (re_sub_ws (dropWhile isspace cs))"
      using 2(1) True by simp
    have hd: "case re_sub_ws (dropWhile isspace cs) of [] \<Rightarrow> True | d # ds \<Rightarrow> \<not> isspace d"
    proof (cases "dropWhile isspace cs")
      case Nil
      then have "re_sub_ws (dropWhile isspace cs) = []" by (simp only: re_sub_ws.simps)
      then show ?thesis by simp
    next
      case (Cons y ys)
      then have "\<not> isspace y" by (rule dropWhile_head)
      with Cons show ?thesis by simp
    qed
    from True tail hd show ?thesis by simp
  next
    case False
    with 2(2) show ?thesis by simp
  qed
qed

lemma re_sub_ws_single_spaced: "single_spaced t \<Longrightarrow> re_sub_ws t = t"
proof (induction t)
  case Nil
  show ?case by simp
next
  case (Cons c cs)
  show ?case
  proof (cases "isspace c")
    case True
    with Cons.prems have c: "c = 32" and hd: "case cs of [] \<Rightarrow> True | d # ds \<Rightarrow> \<not> isspace d"
      and tl: "single_spaced cs" by simp_all
    from hd have "dropWhile isspace cs = cs" by (cases cs) simp_all
    with True c Cons.IH [OF tl] show ?thesis by simp
  next
    case False
    with Cons show ?thesis by simp
  qed
qed

lemma single_spaced_tail: "single_spaced (c # cs) \<Longrightarrow> single_spaced cs"
  by (cases "isspace c") simp_all

lemma single_spaced_append_right: "single_spaced (xs @ ys) \<Longrightarrow> single_spaced ys"
proof (induction xs)
  case Nil
  then show ?case by simp
next
  case (Cons x xs)
  from Cons.prems have "single_spaced (xs @ ys)"
    by (simp only: append_Cons single_spaced_tail)
  then show ?case by (rule Cons.IH)
qed

lemma single_spaced_append_left: "single_spaced (xs @ ys) \<Longrightarrow> single_spaced xs"
proof (induction xs)
  case Nil
  show ?case by simp
next
  case (Cons x xs)
  from Cons.prems have "single_spaced (xs @ ys)"
    by (simp only: append_Cons single_spaced_tail)
  then have tl: "single_spaced xs" by (rule Cons.IH)
  show ?case
  proof (cases "isspace x")
    case False
    with tl show ?thesis by simp
  next
    case True
    with Cons.prems have x: "x = 32"
      and hd: "case xs @ ys of [] \<Rightarrow> True | d # ds \<Rightarrow> \<not> isspace d"
      by simp_all
    from hd have "case xs of [] \<Rightarrow> True | d # ds \<Rightarrow> \<not> isspace d"
      by (cases xs) simp_all
    with True x tl show ?thesis by simp
  qed
qed

lemma rev_dropWhile_takeWhile:
  "rev (dropWhile P (rev u)) @ rev (takeWhile P (rev u)) = u"
  by (metis rev_append rev_rev_ident takeWhile_dropWhile_id)

lemma strip_suffix:
  "dropWhile isspace s = strip s @ rev (takeWhile isspace (rev (dropWhile isspace s)))"
  by (simp add: strip_def rev_dropWhile_takeWhile)

lemma strip_decomp: "\<exists>pre suf. s = pre @ strip s @ suf"
proof -
  have "s = takeWhile isspace s @ dropWhile isspace s" by simp
  then have "s = takeWhile isspace s @ strip s @ rev (takeWhile isspace (rev (dropWhile isspace s)))"
    using strip_suffix [of s] by simp
  then show ?thesis by blast
qed

lemma single_spaced_strip: "single_spaced t \<Longrightarrow> single_spaced (strip t)"
proof -
  assume t: "single_spaced t"
  obtain pre suf where "t = pre @ strip t @ suf" using strip_decomp by blast
  with t have "single_spaced (pre @ strip t @ suf)" by simp
  then have "single_spaced (strip t @ suf)" by (rule single_spaced_append_right)
  then show ?thesis by (rule single_spaced_append_left)
qed

lemma strip_head: "strip s = y # ys \<Longrightarrow> \<not> isspace y"
proof -
  assume a: "strip s = y # ys"
  let ?u = "dropWhile isspace s"
  have "?u = strip s @ rev (takeWhile isspace (rev ?u))"
    by (rule strip_suffix)
  with a have "?u = y # (ys @ rev (takeWhile isspace (rev ?u)))" by simp
  then show ?thesis by (rule dropWhile_head)
qed

lemma strip_strip: "strip (strip s) = strip s"
proof -
  let ?v = "strip s"
  have 1: "dropWhile isspace ?v = ?v"
  proof (cases ?v)
    case Nil
    then show ?thesis by simp
  next
    case (Cons y ys)
    then have "\<not> isspace y" by (rule strip_head)
    with Cons show ?thesis by simp
  qed
  have "rev ?v = dropWhile isspace (rev (dropWhile isspace s))"
    by (simp add: strip_def)
  then have "dropWhile isspace (rev ?v) = rev ?v"
    by (simp add: dropWhile_idem)
  then have "rev (dropWhile isspace (rev ?v)) = ?v" by simp
  with 1 show ?thesis
    by (simp add: strip_def[of "strip s"])
qed

lemma normalize_idem: "strip (re_sub_ws (strip (re_sub_ws s))) = strip (re_sub_ws s)"
proof -
  have "single_spaced (strip (re_sub_ws s))"
    by (rule single_spaced_strip [OF single_spaced_re_sub_ws])
  then have "re_sub_ws (strip (re_sub_ws s)) = strip (re_sub_ws s)"
    by (rule re_sub_ws_single_spaced)
  then show ?thesis by (simp add: strip_strip)
qed

lemma single_spaced_no_newline: "single_spaced t \<Longrightarrow> 10 \<notin> set t"
  by (induction t) (auto simp: isspace_def split: if_splits)

lemma re_sub_blank_lines_no_newline: "10 \<notin> set t \<Longrightarrow> re_sub_blank_lines t = t"
  by (induction t) auto

text \<open>
  Claim C8. The whitespace-normalization pass, which collapses every run of
  whitespace to a single space and then trims, is idempotent: applied twice it yields
  what it yields applied once. The same holds for the whole clean-up of the primary
  extractor (lines 82 to 86), which collapses blank lines first.
\<close>

theorem C8_whitespace_normalization_idempotent:
  "strip (re_sub_ws (strip (re_sub_ws s))) = strip (re_sub_ws s) \<and>
   clean_markdown (clean_markdown s) = clean_markdown s"
proof
  show "strip (re_sub_ws (strip (re_sub_ws s))) = strip (re_sub_ws s)"
    by (rule normalize_idem)
next
  let ?t = "re_sub_blank_lines s"
  have "single_spaced (strip (re_sub_ws ?t))"
    by (rule single_spaced_strip [OF single_spaced_re_sub_ws])
  then have "re_sub_blank_lines (strip (re_sub_ws ?t)) = strip (re_sub_ws ?t)"
    by (intro re_sub_blank_lines_no_newline single_spaced_no_newline)
  then show "clean_markdown (clean_markdown s) = clean_markdown s"
    by (simp add: clean_markdown_def normalize_idem)
qed

theorem C8_whitespace_normalization_witness:
  "strip (re_sub_ws (strip (re_sub_ws [32, 65, 10, 10, 9, 66, 32]))) = [65, 32, 66]"
  using C8_whitespace_normalization_idempotent [of "[32, 65, 10, 10, 9, 66, 32]"]
  by (simp add: strip_def isspace_def)

section \<open>The extraction orchestrator\<close>

lemma extract_with_fallback_trace:
  "extract_with_fallback self url tr =
     (fst (extract_with_fallback self url []), tr @ [Session_get url])"
  by (simp add: extract_with_fallback_def Let_def split: sum.splits)

lemma extract_with_firecrawl_trace:
  "firecrawl_client self \<noteq> None \<Longrightarrow>
   extract_with_firecrawl self url tr =
     (fst (extract_with_firecrawl self url []), tr @ [Scrape_url url])"
  by (auto simp: extract_with_firecrawl_def split: sum.splits option.splits)

lemma extract_from_data_error:
  "extract_from_data data = Inr (t, c, e) \<Longrightarrow> \<not> truthy e \<Longrightarrow> e = None"
  by (auto simp: extract_from_data_def Let_def truthy_def
      split: sum.splits option.splits if_splits entry.splits)

lemma extract_from_result_error:
  "extract_from_result r = Inr (t, c, e) \<Longrightarrow> \<not> truthy e \<Longrightarrow> e = None"
  by (auto simp: extract_from_result_def truthy_def
      split: if_splits entry.splits dest: extract_from_data_error)

lemma extract_with_firecrawl_error:
  "fst (extract_with_firecrawl self url tr) = (t, c, e) \<Longrightarrow> \<not> truthy e \<Longrightarrow> e = None"
  by (auto simp: extract_with_firecrawl_def truthy_def
      split: sum.splits option.splits dest: extract_from_result_error)

lemma strip_length_le: "length (strip s) \<le> length s"
proof -
  have "length (strip s) \<le> length (dropWhile isspace s)"
    unfolding strip_def length_rev
    by (metis length_dropWhile_le length_rev)
  also have "\<dots> \<le> length s" by (rule length_dropWhile_le)
  finally show ?thesis .
qed

lemma primary_accepted_iff:
  "primary_accepted c e \<longleftrightarrow> \<not> truthy e \<and> (\<exists>s. c = Some s \<and> 100 < length (strip s))"
proof (cases c)
  case None
  then show ?thesis by (simp add: primary_accepted_def)
next
  case (Some s)
  have "100 < length (strip s) \<Longrightarrow> s \<noteq> []"
    using strip_length_le [of s] by auto
  with Some show ?thesis by (auto simp: primary_accepted_def)
qed

lemma extract_content_cases:
  "extract_content self url tr =
     (case fst (extract_with_firecrawl self url []) of (pt, pc, pe) \<Rightarrow>
      case fst (extract_with_fallback self url []) of (ft, fc, fe) \<Rightarrow>
        if firecrawl_client self \<noteq> None \<and> pe = None \<and>
           (\<exists>c. pc = Some c \<and> 100 < length (strip c))
        then ((pt, pc, pe, py ''Firecrawl''), tr @ [Scrape_url url])
        else ((ft, fc, fe, py ''Basic Scraping''),
              tr @ (if firecrawl_client self = None then [] else [Scrape_url url]) @
              [Session_get url]))"
proof (cases "firecrawl_client self")
  case None
  then show ?thesis
    using extract_with_fallback_trace [of self url tr]
    by (simp add: extract_content_def basic_scraping_def split: prod.splits)
next
  case (Some client)
  obtain pt pc pe where p: "fst (extract_with_firecrawl self url []) = (pt, pc, pe)"
    by (metis prod_cases3)
  obtain ft fc fe where f: "fst (extract_with_fallback self url []) = (ft, fc, fe)"
    by (metis prod_cases3)
  from Some have tr1: "extract_with_firecrawl self url tr = ((pt, pc, pe), tr @ [Scrape_url url])"
    using extract_with_firecrawl_trace [of self url tr] p by simp
  have tr2: "extract_with_fallback self url (tr @ [Scrape_url url]) =
      ((ft, fc, fe), tr @ [Scrape_url url] @ [Session_get url])"
    using extract_with_fallback_trace [of self url "tr @ [Scrape_url url]"] f by simp
  have e: "\<not> truthy pe \<longleftrightarrow> pe = None"
    using extract_with_firecrawl_error [OF p] by (auto simp: truthy_def)
  show ?thesis
  proof (cases "primary_accepted pc pe")
    case True
    then have "pe = None \<and> (\<exists>c. pc = Some c \<and> 100 < length (strip c))"
      using e by (simp add: primary_accepted_iff)
    with True Some tr1 p f show ?thesis
      by (simp add: extract_content_def)
  next
    case False
    then have "\<not> (pe = None \<and> (\<exists>c. pc = Some c \<and> 100 < length (strip c)))"
      using e by (simp add: primary_accepted_iff)
    with False Some tr1 tr2 p f show ?thesis
      by (simp add: extract_content_def basic_scraping_def)
  qed
qed

lemma init_no_key:
  "firecrawl_client (init w k None) = None" "firecrawl_client (init w k (Some [])) = None"
  by (simp_all add: init_def)

text \<open>
  Claim C1. For every URL, \<^verbatim>\<open>extract_content\<close> returns the result of the primary
  extractor, with the method Firecrawl, exactly when a Firecrawl client is configured,
  the primary attempt gave no error and its content, trimmed, is longer than 100
  characters; the only call made is then the one to Firecrawl. In every other case
  it calls the fallback extractor exactly once, returns that result as it is, and the
  method is Basic Scraping. Without a Firecrawl key (absent or empty) the primary
  extractor is not called at all: the only call is the plain request.
\<close>

theorem C1_orchestrator_two_tiers:
  "extract_content self url tr =
     (case fst (extract_with_firecrawl self url []) of (pt, pc, pe) \<Rightarrow>
      case fst (extract_with_fallback self url []) of (ft, fc, fe) \<Rightarrow>
        if firecrawl_client self \<noteq> None \<and> pe = None \<and>
           (\<exists>c. pc = Some c \<and> 100 < length (strip c))
        then ((pt, pc, pe, py ''Firecrawl''), tr @ [Scrape_url url])
        else ((ft, fc, fe, py ''Basic Scraping''),
              tr @ (if firecrawl_client self = None then [] else [Scrape_url url]) @
              [Session_get url])) \<and>
   snd (extract_content (init w groq_api_key None) url tr) = tr @ [Session_get url] \<and>
   snd (extract_content (init w groq_api_key (Some [])) url tr) = tr @ [Session_get url]"
proof (intro conjI)
  show "extract_content self url tr =
     (case fst (extract_with_firecrawl self url []) of (pt, pc, pe) \<Rightarrow>
      case fst (extract_with_fallback self url []) of (ft, fc, fe) \<Rightarrow>
        if firecrawl_client self \<noteq> None \<and> pe = None \<and>
           (\<exists>c. pc = Some c \<and> 100 < length (strip c))
        then ((pt, pc, pe, py ''Firecrawl''), tr @ [Scrape_url url])
        else ((ft, fc, fe, py ''Basic Scraping''),
              tr @ (if firecrawl_client self = None then [] else [Scrape_url url]) @
              [Session_get url]))"
    by (rule extract_content_cases)
next
  show "snd (extract_content (init w groq_api_key None) url tr) = tr @ [Session_get url]"
    using extract_content_cases [of "init w groq_api_key None" url tr]
    by (simp add: init_no_key split: prod.splits)
next
  show "snd (extract_content (init w groq_api_key (Some [])) url tr) = tr @ [Session_get url]"
    using extract_content_cases [of "init w groq_api_key (Some [])" url tr]
    by (simp add: init_no_key split: prod.splits)
qed

lemma dropWhile_none: "\<forall>c \<in> set s. \<not> P c \<Longrightarrow> dropWhile P s = s"
  by (cases s) simp_all

lemma strip_no_space: "\<forall>c \<in> set s. \<not> isspace c \<Longrightarrow> strip s = s"
proof -
  assume a: "\<forall>c \<in> set s. \<not> isspace c"
  then have 1: "dropWhile isspace s = s" by (rule dropWhile_none)
  from a have "\<forall>c \<in> set (rev s). \<not> isspace c" by simp
  then have "dropWhile isspace (rev s) = rev s" by (rule dropWhile_none)
  with 1 show ?thesis by (simp add: strip_def)
qed

lemma re_sub_ws_no_space: "\<forall>c \<in> set s. \<not> isspace c \<Longrightarrow> re_sub_ws s = s"
  by (induction s) simp_all

lemma clean_markdown_no_space:
  assumes "\<forall>c \<in> set s. \<not> isspace c"
  shows "clean_markdown s = s"
proof -
  have "isspace 10" by (simp add: isspace_def)
  with assms have "10 \<notin> set s" by blast
  then have "re_sub_blank_lines s = s" by (rule re_sub_blank_lines_no_newline)
  with assms show ?thesis
    by (simp add: clean_markdown_def re_sub_ws_no_space strip_no_space)
qed

lemma example_article_no_space: "\<forall>c \<in> set example_article. \<not> isspace c"
  by (simp add: example_article_def isspace_def)

lemma example_article_clean: "clean_markdown example_article = example_article"
  by (rule clean_markdown_no_space [OF example_article_no_space])

lemma example_primary:
  "fst (extract_with_firecrawl example_with_key example_url []) =
     (Some (py ''A post''), Some example_article, None)"
  by (simp add: extract_with_firecrawl_def extract_from_result_def extract_from_data_def
      example_with_key_def init_def example_services_def Let_def truthy_def
      example_article_clean) (simp add: example_article_def)

theorem C1_orchestrator_witness:
  "extract_content example_with_key example_url [] =
     ((Some (py ''A post''), Some example_article, None, py ''Firecrawl''),
      [Scrape_url example_url]) \<and>
   extract_content example_without_key example_url [] =
     ((None, None, None, py ''Basic Scraping''), [Session_get example_url])"
proof
  have c: "firecrawl_client example_with_key \<noteq> None"
    by (simp add: example_with_key_def init_def)
  have l: "100 < length (strip example_article)"
    by (simp add: strip_no_space [OF example_article_no_space]) (simp add: example_article_def)
  show "extract_content example_with_key example_url [] =
     ((Some (py ''A post''), Some example_article, None, py ''Firecrawl''),
      [Scrape_url example_url])"
    using C1_orchestrator_two_tiers [of example_with_key example_url "[]"] c l
    by (simp add: example_primary split: prod.splits)
next
  have n: "firecrawl_client example_without_key = None"
    by (simp add: example_without_key_def init_def)
  have f: "fst (extract_with_fallback example_without_key example_url []) = (None, None, None)"
    by (simp add: extract_with_fallback_def example_without_key_def init_def
        example_services_def raise_for_status_def example_empty_soup_def Let_def
        title_selectors_def content_selectors_def resolve_content_def clean_content_def truthy_def)
  show "extract_content example_without_key example_url [] =
     ((None, None, None, py ''Basic Scraping''), [Session_get example_url])"
    using C1_orchestrator_two_tiers [of example_without_key example_url "[]"] n
    by (simp add: f split: prod.splits)
qed

lemma fallback_except_nonempty: "fallback_except e \<noteq> []"
  by (cases e) (simp_all add: fallback_except_def)

lemma extract_with_fallback_shape:
  "fst (extract_with_fallback self url tr) = (t, c, e) \<Longrightarrow> e = None \<or> (truthy e \<and> c = None)"
  by (auto simp: extract_with_fallback_def Let_def truthy_def fallback_except_nonempty
      split: sum.splits)

text \<open>
  Claim C2 as stated fails: without a Firecrawl key, on a page whose document has
  neither a content container nor a body, the result has no content and no error.
\<close>

theorem C2_both_empty_counterexample:
  "\<not> exactly_one_nonempty (fst (extract_content example_without_key example_url []))"
proof -
  have "firecrawl_client example_without_key = None"
    by (simp add: example_without_key_def init_def)
  moreover have "fst (extract_with_fallback example_without_key example_url []) = (None, None, None)"
    by (simp add: extract_with_fallback_def example_without_key_def init_def
        example_services_def raise_for_status_def example_empty_soup_def Let_def
        title_selectors_def content_selectors_def resolve_content_def clean_content_def truthy_def)
  ultimately have "fst (extract_content example_without_key example_url []) =
      (None, None, None, py ''Basic Scraping'')"
    using extract_content_cases [of example_without_key example_url "[]"]
    by (simp split: prod.splits)
  then show ?thesis
    by (simp add: exactly_one_nonempty_def truthy_def)
qed

text \<open>
  Claim C2, amended. On every return from \<^verbatim>\<open>extract_content\<close> content and error are
  never both non-empty: the error is absent, or it is non-empty and the content is
  absent. A result of the primary tier has non-empty content and no error. When both
  are empty or absent, the result is the fallback extractor's and it carries no
  error.
\<close>

theorem C2_never_both_nonempty:
  "(case fst (extract_content self url tr) of (title, content, error, m) \<Rightarrow>
      \<not> (truthy content \<and> truthy error) \<and>
      (error = None \<or> (truthy error \<and> content = None)) \<and>
      (m = py ''Firecrawl'' \<longrightarrow> truthy content \<and> error = None) \<and>
      (\<not> truthy content \<and> \<not> truthy error \<longrightarrow> m = py ''Basic Scraping'' \<and> error = None))"
proof -
  obtain pt pc pe where p: "fst (extract_with_firecrawl self url []) = (pt, pc, pe)"
    by (metis prod_cases3)
  obtain ft fc fe where f: "fst (extract_with_fallback self url []) = (ft, fc, fe)"
    by (metis prod_cases3)
  note shape = extract_with_fallback_shape [OF f]
  show ?thesis
  proof (cases "firecrawl_client self \<noteq> None \<and> pe = None \<and>
           (\<exists>c. pc = Some c \<and> 100 < length (strip c))")
    case True
    then obtain c where c: "pc = Some c" "100 < length (strip c)" by blast
    then have "c \<noteq> []" using strip_length_le [of c] by auto
    with c have t: "truthy pc" by (simp add: truthy_def)
    from True have pe: "pe = None" by simp
    from True have r: "fst (extract_content self url tr) = (pt, pc, pe, py ''Firecrawl'')"
      using extract_content_cases [of self url tr] p f by simp
    show ?thesis
      unfolding r using t pe by (simp add: truthy_def)
  next
    case False
    then have r: "fst (extract_content self url tr) = (ft, fc, fe, py ''Basic Scraping'')"
      using extract_content_cases [of self url tr] p f by simp
    have ne: "py ''Basic Scraping'' \<noteq> py ''Firecrawl''" by simp
    have n: "truthy (None :: pystr option) = False" by (simp add: truthy_def)
    from shape show ?thesis
    proof
      assume "fe = None"
      then show ?thesis unfolding r using ne n by simp
    next
      assume "truthy fe \<and> fc = None"
      then show ?thesis unfolding r using ne n by auto
    qed
  qed
qed

lemma example_with_key_result:
  "fst (extract_content example_with_key example_url []) =
     (Some (py ''A post''), Some example_article, None, py ''Firecrawl'')"
proof -
  have c: "firecrawl_client example_with_key \<noteq> None"
    by (simp add: example_with_key_def init_def)
  have l: "100 < length (strip example_article)"
    by (simp add: strip_no_space [OF example_article_no_space]) (simp add: example_article_def)
  show ?thesis
    using extract_content_cases [of example_with_key example_url "[]"] c l
    by (simp add: example_primary split: prod.splits)
qed

lemma example_without_key_result:
  "fst (extract_content example_without_key example_url []) =
     (None, None, None, py ''Basic Scraping'')"
proof -
  have n: "firecrawl_client example_without_key = None"
    by (simp add: example_without_key_def init_def)
  have f: "fst (extract_with_fallback example_without_key example_url []) = (None, None, None)"
    by (simp add: extract_with_fallback_def example_without_key_def init_def
        example_services_def raise_for_status_def example_empty_soup_def Let_def
        title_selectors_def content_selectors_def resolve_content_def clean_content_def truthy_def)
  show ?thesis
    using extract_content_cases [of example_without_key example_url "[]"] n
    by (simp add: f split: prod.splits)
qed

theorem C2_never_both_nonempty_witness:
  "truthy (Some example_article) \<and> \<not> truthy None \<and>
   fst (extract_content example_with_key example_url []) =
     (Some (py ''A post''), Some example_article, None, py ''Firecrawl'') \<and>
   fst (extract_content example_without_key example_url []) =
     (None, None, None, py ''Basic Scraping'')"
proof -
  have a: "fst (extract_content example_with_key example_url []) =
     (Some (py ''A post''), Some example_article, None, py ''Firecrawl'')"
    by (rule example_with_key_result)
  have b: "fst (extract_content example_without_key example_url []) =
     (None, None, None, py ''Basic Scraping'')"
    by (rule example_without_key_result)
  from C2_never_both_nonempty [of example_with_key example_url "[]"]
  have "truthy (Some example_article)"
    unfolding a by simp
  moreover from C2_never_both_nonempty [of example_without_key example_url "[]"]
  have "\<not> truthy None"
    unfolding b by simp
  ultimately show ?thesis using a b by simp
qed

section \<open>The summarization request builder\<close>

lemma length_instruction_medium:
  "length_instruction (py ''medium'') =
     Inr (py ''Provide a comprehensive summary in 1-2 paragraphs (4-6 sentences) covering the main points and key insights.'')"
  by (simp add: length_instruction_def length_instructions_def)

lemma length_instruction_total: "\<exists>instruction. length_instruction summary_length = Inr instruction"
  by (simp add: length_instruction_def length_instructions_def split: option.splits)

text \<open>
  Claim C4. In \<^verbatim>\<open>summarize_content\<close>, a content longer than 15,000 characters is
  embedded in the request as its first 15,000 characters followed by the three
  characters of the ellipsis; a content of length 20,000 gives a field of length
  exactly 15,003; a content of at most 15,000 characters is embedded unchanged.
\<close>

theorem C4_truncate_content:
  "(15000 < length content \<longrightarrow>
      truncate_content content = take 15000 content @ py ''...'' \<and>
      length (truncate_content content) = 15003) \<and>
   (length content = 20000 \<longrightarrow> length (truncate_content content) = 15003) \<and>
   (length content \<le> 15000 \<longrightarrow> truncate_content content = content) \<and>
   (\<exists>instruction.
      build_request title content summary_length =
        Inr \<lparr> system_content = system_persona,
              user_content = build_prompt instruction title (truncate_content content),
              model = py ''llama3-8b-8192'' \<rparr>)"
proof (intro conjI impI)
  assume "15000 < length content"
  then show "truncate_content content = take 15000 content @ py ''...''"
    by (simp add: truncate_content_def max_content_length_def)
next
  assume "15000 < length content"
  then show "length (truncate_content content) = 15003"
    by (simp add: truncate_content_def max_content_length_def)
next
  assume "length content = 20000"
  then show "length (truncate_content content) = 15003"
    by (simp add: truncate_content_def max_content_length_def)
next
  assume "length content \<le> 15000"
  then show "truncate_content content = content"
    by (simp add: truncate_content_def max_content_length_def)
next
  obtain instruction where "length_instruction summary_length = Inr instruction"
    using length_instruction_total by blast
  then show "\<exists>instruction.
      build_request title content summary_length =
        Inr \<lparr> system_content = system_persona,
              user_content = build_prompt instruction title (truncate_content content),
              model = py ''llama3-8b-8192'' \<rparr>"
    by (simp add: build_request_def) blast
qed

theorem C4_truncate_content_witness:
  "truncate_content (replicate 20000 120) = replicate 15000 120 @ py ''...'' \<and>
   length (truncate_content (replicate 20000 120)) = 15003 \<and>
   truncate_content (py ''short text'') = py ''short text''"
  using C4_truncate_content [of "replicate 20000 120"] C4_truncate_content [of "py ''short text''"]
  by simp

text \<open>
  Claim C5. For every length mode that is not one of short, medium and long, the
  resolved instruction is exactly the medium entry of the table, and the request is
  built without failure.
\<close>

theorem C5_unrecognized_mode_is_medium:
  assumes "summary_length \<noteq> py ''short''" "summary_length \<noteq> py ''medium''"
    "summary_length \<noteq> py ''long''"
  shows "length_instruction summary_length = length_instruction (py ''medium'') \<and>
    length_instruction summary_length =
      Inr (py ''Provide a comprehensive summary in 1-2 paragraphs (4-6 sentences) covering the main points and key insights.'') \<and>
    build_request title content summary_length = build_request title content (py ''medium'') \<and>
    (\<exists>request. build_request title content summary_length = Inr request)"
proof -
  have 1: "length_instruction summary_length = length_instruction (py ''medium'')"
    using assms by (simp add: length_instruction_def length_instructions_def)
  then have 2: "build_request title content summary_length = build_request title content (py ''medium'')"
    by (simp add: build_request_def)
  have 3: "\<exists>request. build_request title content summary_length = Inr request"
    using length_instruction_medium by (simp add: build_request_def 1)
  from 1 2 3 show ?thesis
    by (simp only: length_instruction_medium simp_thms)
qed

theorem C5_unrecognized_mode_witness:
  "length_instruction (py ''tiny'') =
      Inr (py ''Provide a comprehensive summary in 1-2 paragraphs (4-6 sentences) covering the main points and key insights.'')"
proof -
  have "py ''tiny'' \<noteq> py ''short''" "py ''tiny'' \<noteq> py ''medium''" "py ''tiny'' \<noteq> py ''long''"
    by simp_all
  from C5_unrecognized_mode_is_medium [OF this] show ?thesis by blast
qed

section \<open>The URL validator: properties\<close>

text \<open>
  Claim C9. For every input string, \<^verbatim>\<open>is_valid_url\<close> returns true if and only if the
  string parses into a result with a non-empty scheme and a non-empty network
  location; when the parser raises, the validator returns false, so it always
  returns a truth value and no exception leaves it.
\<close>

theorem C9_is_valid_url:
  "(is_valid_url urlparse url \<longleftrightarrow>
      (\<exists>result. urlparse url = Inr result \<and> scheme result \<noteq> [] \<and> netloc result \<noteq> [])) \<and>
   (urlparse url = Inl e \<longrightarrow> is_valid_url urlparse url = False)"
  by (cases "urlparse url") (simp_all add: is_valid_url_def)

theorem C9_is_valid_url_witness:
  "is_valid_url example_urlparse (py ''https://example.com/post'') \<and>
   \<not> is_valid_url example_urlparse (py ''http://[::1'') \<and>
   \<not> is_valid_url example_urlparse (py ''example.com/post'')"
proof -
  have a: "example_urlparse (py ''https://example.com/post'') =
      Inr \<lparr> scheme = py ''https'', netloc = py ''example.com'' \<rparr>"
    by (simp add: example_urlparse_def)
  have b: "example_urlparse (py ''http://[::1'') = Inl (OtherException (py ''Invalid IPv6 URL''))"
    by (simp add: example_urlparse_def)
  have c: "example_urlparse (py ''example.com/post'') = Inr \<lparr> scheme = [], netloc = [] \<rparr>"
    by (simp add: example_urlparse_def)
  have "is_valid_url example_urlparse (py ''https://example.com/post'')"
    using C9_is_valid_url [of example_urlparse "py ''https://example.com/post''"] a by simp
  moreover have "\<not> is_valid_url example_urlparse (py ''http://[::1'')"
    using C9_is_valid_url [of example_urlparse "py ''http://[::1''"
        "OtherException (py ''Invalid IPv6 URL'')"] b by simp
  moreover have "\<not> is_valid_url example_urlparse (py ''example.com/post'')"
    using C9_is_valid_url [of example_urlparse "py ''example.com/post''"] c by simp
  ultimately show ?thesis by simp
qed

section \<open>Transport failures of the fallback extractor\<close>

lemma fallback_except_kind:
  "fallback_except e =
     (case failure_kind e of
        Timeout \<Rightarrow> py ''Request timeout - the website took too long to respond''
      | Connection \<Rightarrow> py ''Connection error - unable to reach the website''
      | HttpStatus \<Rightarrow>
          (case e of HTTPError m code phrase \<Rightarrow>
             py ''HTTP error '' @ str_int code @ py '' - '' @ phrase | _ \<Rightarrow> [])
      | Generic \<Rightarrow> py ''Error extracting content: '' @ str_e e)"
  by (cases e) (simp_all add: fallback_except_def)

lemma fallback_except_hd:
  "hd (fallback_except e) =
     (case failure_kind e of Timeout \<Rightarrow> 82 | Connection \<Rightarrow> 67 | HttpStatus \<Rightarrow> 72 | Generic \<Rightarrow> 69)"
  by (cases e) (simp_all add: fallback_except_def)

lemma fallback_except_distinct:
  "failure_kind e \<noteq> failure_kind e' \<Longrightarrow> fallback_except e \<noteq> fallback_except e'"
proof
  assume k: "failure_kind e \<noteq> failure_kind e'" and "fallback_except e = fallback_except e'"
  then have "hd (fallback_except e) = hd (fallback_except e')" by simp
  with k show False
    by (cases "failure_kind e"; cases "failure_kind e'") (simp_all add: fallback_except_hd)
qed

lemma extract_with_fallback_failure:
  "transport_failure self url = Some e \<Longrightarrow>
   extract_with_fallback self url tr = ((None, None, Some (fallback_except e)), tr @ [Session_get url])"
  by (auto simp: transport_failure_def extract_with_fallback_def split: sum.splits)

text \<open>
  Claim C7. For every URL on which the transport of the fallback extractor fails
  (the request raises, or the status is an error status), \<^verbatim>\<open>extract_with_fallback\<close>
  returns no title, no content and a non-empty error. The error belongs to one of
  four categories: timeout, connection error, HTTP status error with the status code
  and the reason phrase, and a generic one with the text of the exception. Failures
  of different kinds never give the same error.
\<close>

theorem C7_transport_failures:
  assumes "transport_failure self url = Some e"
  shows "fst (extract_with_fallback self url tr) = (None, None, Some (fallback_except e)) \<and>
    fallback_except e \<noteq> [] \<and>
    fallback_except e =
     (case failure_kind e of
        Timeout \<Rightarrow> py ''Request timeout - the website took too long to respond''
      | Connection \<Rightarrow> py ''Connection error - unable to reach the website''
      | HttpStatus \<Rightarrow>
          (case e of HTTPError m code phrase \<Rightarrow>
             py ''HTTP error '' @ str_int code @ py '' - '' @ phrase | _ \<Rightarrow> [])
      | Generic \<Rightarrow> py ''Error extracting content: '' @ str_e e) \<and>
    (\<forall>e'. failure_kind e' \<noteq> failure_kind e \<longrightarrow> fallback_except e' \<noteq> fallback_except e)"
proof (intro conjI allI impI)
  show "fst (extract_with_fallback self url tr) = (None, None, Some (fallback_except e))"
    using extract_with_fallback_failure [OF assms] by simp
  show "fallback_except e \<noteq> []"
    by (rule fallback_except_nonempty)
  show "fallback_except e =
     (case failure_kind e of
        Timeout \<Rightarrow> py ''Request timeout - the website took too long to respond''
      | Connection \<Rightarrow> py ''Connection error - unable to reach the website''
      | HttpStatus \<Rightarrow>
          (case e of HTTPError m code phrase \<Rightarrow>
             py ''HTTP error '' @ str_int code @ py '' - '' @ phrase | _ \<Rightarrow> [])
      | Generic \<Rightarrow> py ''Error extracting content: '' @ str_e e)"
    by (rule fallback_except_kind)
next
  fix e'
  assume "failure_kind e' \<noteq> failure_kind e"
  then show "fallback_except e' \<noteq> fallback_except e"
    by (rule fallback_except_distinct)
qed

lemma str_int_404: "str_int 404 = py ''404''"
  by (simp add: str_int_def str_nat.simps)

theorem C7_transport_failures_witness:
  "fst (extract_with_fallback example_not_found example_url []) =
     (None, None, Some (py ''HTTP error 404 - Not Found''))"
proof -
  have "transport_failure example_not_found example_url =
      Some (HTTPError (py ''404 Client Error: Not Found for url: '' @ example_url) 404 (py ''Not Found''))"
    by (simp add: transport_failure_def example_not_found_def raise_for_status_def str_int_404)
  from C7_transport_failures [OF this, of "[]"] show ?thesis
    by (simp add: fallback_except_def str_int_404)
qed

section \<open>Title resolution of the fallback extractor\<close>

lemma title_loop_first_nonempty:
  assumes "\<forall>s \<in> set pre. \<forall>e'. select_one sp s = Some e' \<longrightarrow> strip (get_text e') = []"
    and "select_one sp sel = Some e"
    and "strip (get_text e) \<noteq> []"
  shows "title_loop sp (pre @ sel # post) acc = Some (strip (get_text e))"
  using assms(1)
proof (induction pre arbitrary: acc)
  case Nil
  from assms(2) assms(3) show ?case
    by (simp add: hasattr_get_text_def Let_def)
next
  case (Cons s pre)
  then have tl: "\<forall>s \<in> set pre. \<forall>e'. select_one sp s = Some e' \<longrightarrow> strip (get_text e') = []"
    by simp
  show ?case
  proof (cases "select_one sp s")
    case None
    with Cons.IH [OF tl] show ?thesis by simp
  next
    case (Some e')
    with Cons.prems have "strip (get_text e') = []" by simp
    with Some Cons.IH [OF tl] show ?thesis
      by (simp add: hasattr_get_text_def Let_def)
  qed
qed

lemma title_loop_ignores_attrs:
  "title_loop \<lparr> select_one = (\<lambda>s. map_option (\<lambda>e. e\<lparr> attrs := f e \<rparr>) (select_one sp s)),
                find_body = find_body sp \<rparr> sels acc =
   title_loop sp sels acc"
  by (induction sels arbitrary: acc)
     (simp_all add: hasattr_get_text_def Let_def split: option.splits)

text \<open>
  Claim C3 says that the title selectors are tried in their fixed order, that the
  first one with non-empty text wins (lemma \<open>title_loop_first_nonempty\<close>), and that
  for the \<^verbatim>\<open>og:title\<close> selector the text comes from the \<^verbatim>\<open>content\<close> attribute. The
  last part fails in the code: the test \<^verbatim>\<open>hasattr(title_elem, 'get_text')\<close> holds for
  every element, so the branch that reads the attribute is never taken (lemma
  \<open>title_loop_ignores_attrs\<close>). On a document whose only title source is a \<^verbatim>\<open>meta\<close>
  element with the property \<^verbatim>\<open>og:title\<close> and the content \<^verbatim>\<open>Hello\<close>, the resolved title
  is the empty string.
\<close>

theorem C3_og_title_content_attribute_not_read:
  "get_content_attr example_og_meta = py ''Hello'' \<and>
   title_loop example_og_soup title_selectors None = Some []"
  by (simp add: get_content_attr_def example_og_meta_def example_og_soup_def title_selectors_def
      hasattr_get_text_def strip_def Let_def)

section \<open>Body resolution of the fallback extractor\<close>

lemma content_loop_no_match:
  "\<forall>s \<in> set sels. select_one sp s = None \<Longrightarrow> content_loop sp sels acc = acc"
  by (induction sels arbitrary: acc) simp_all

lemma content_loop_short_prefix:
  "\<forall>s \<in> set pre. \<forall>e. select_one sp s = Some e \<longrightarrow> length (get_text_sep_strip e) \<le> 200 \<Longrightarrow>
   \<exists>acc'. content_loop sp (pre @ rest) acc = content_loop sp rest acc'"
proof (induction pre arbitrary: acc)
  case Nil
  show ?case by auto
next
  case (Cons s pre)
  from Cons.prems
  have tl: "\<forall>s \<in> set pre. \<forall>e. select_one sp s = Some e \<longrightarrow> length (get_text_sep_strip e) \<le> 200"
    by simp
  show ?case
  proof (cases "select_one sp s")
    case None
    with Cons.IH [OF tl, of acc] show ?thesis by simp
  next
    case (Some e)
    with Cons.prems have "length (get_text_sep_strip e) \<le> 200" by simp
    with Some Cons.IH [OF tl, of "Some (get_text_sep_strip e)"] show ?thesis
      by (simp add: Let_def)
  qed
qed

lemma content_loop_last_match:
  assumes short: "\<forall>s \<in> set pre. \<forall>e. select_one sp s = Some e \<longrightarrow> length (get_text_sep_strip e) \<le> 200"
    and sel: "select_one sp sel = Some e"
    and post: "\<forall>s \<in> set post. select_one sp s = None"
  shows "content_loop sp (pre @ sel # post) acc = Some (get_text_sep_strip e)"
proof -
  obtain acc' where "content_loop sp (pre @ sel # post) acc = content_loop sp (sel # post) acc'"
    using content_loop_short_prefix [OF short] by blast
  moreover have "content_loop sp (sel # post) acc' = Some (get_text_sep_strip e)"
    using sel content_loop_no_match [OF post] by (simp add: Let_def)
  ultimately show ?thesis by simp
qed

lemma resolve_content_exactly_200:
  assumes "content_selectors = pre @ sel # post"
    and "\<forall>s \<in> set pre. \<forall>e'. select_one sp s = Some e' \<longrightarrow> length (get_text_sep_strip e') \<le> 200"
    and "select_one sp sel = Some e"
    and "\<forall>s \<in> set post. select_one sp s = None"
    and "length (get_text_sep_strip e) = 200"
  shows "content_loop sp content_selectors None = Some (get_text_sep_strip e) \<and>
    resolve_content sp = Some (get_text_sep_strip e)"
proof -
  have 1: "content_loop sp content_selectors None = Some (get_text_sep_strip e)"
    unfolding assms(1) by (rule content_loop_last_match [OF assms(2) assms(3) assms(4)])
  from assms(5) have "get_text_sep_strip e \<noteq> []" by auto
  with 1 assms(5) show ?thesis
    by (simp add: resolve_content_def truthy_def)
qed

section \<open>Boilerplate truncation of the fallback extractor\<close>

lemma match_literal_iff:
  "match_literal m s \<noteq> None \<longleftrightarrow>
     length m \<le> length s \<and> list_all2 ignorecase_eq m (take (length m) s)"
  by (induction m s rule: match_literal.induct) simp_all

lemma match_alternatives_iff:
  "match_alternatives ms s \<noteq> None \<longleftrightarrow>
     (\<exists>m \<in> set ms. length m \<le> length s \<and> list_all2 ignorecase_eq m (take (length m) s))"
proof (induction ms)
  case Nil
  show ?case by simp
next
  case (Cons m ms)
  show ?case
  proof (cases "match_literal m s")
    case None
    with match_literal_iff [of m s] Cons show ?thesis by auto
  next
    case (Some r)
    with match_literal_iff [of m s] show ?thesis by simp
  qed
qed

lemma marker_at_0: "marker_at t 0 \<longleftrightarrow> match_alternatives boilerplate_markers t \<noteq> None"
  using match_alternatives_iff [of boilerplate_markers t] by (simp add: marker_at_def)

lemma marker_at_Suc: "marker_at (c # cs) (Suc i) \<longleftrightarrow> marker_at cs i"
  by (simp add: marker_at_def)

lemma match_literal_suffix: "match_literal m s = Some r \<Longrightarrow> set r \<subseteq> set s"
  by (induction m s rule: match_literal.induct) (auto split: if_splits)

lemma match_alternatives_suffix: "match_alternatives ms s = Some r \<Longrightarrow> set r \<subseteq> set s"
  by (induction ms) (auto split: option.splits dest: match_literal_suffix)

lemma match_boilerplate_None: "\<not> marker_at t 0 \<Longrightarrow> match_boilerplate t = None"
  by (simp add: marker_at_0 match_boilerplate_def)

lemma match_boilerplate_whole:
  assumes "marker_at t 0" and "10 \<notin> set t"
  shows "match_boilerplate t = Some []"
proof -
  from assms(1) obtain r where r: "match_alternatives boilerplate_markers t = Some r"
    by (auto simp: marker_at_0)
  from match_alternatives_suffix [OF r] assms(2) have "10 \<notin> set r" by blast
  then have "dropWhile (\<lambda>c. c \<noteq> 10) r = []" by auto
  with r show ?thesis by (simp add: match_boilerplate_def)
qed

lemma re_sub_boilerplate_first_marker:
  "10 \<notin> set t \<Longrightarrow> marker_at t i \<Longrightarrow> \<forall>j<i. \<not> marker_at t j \<Longrightarrow>
   re_sub_boilerplate t = take i t"
proof (induction t arbitrary: i)
  case Nil
  show ?case by simp
next
  case (Cons c cs)
  show ?case
  proof (cases i)
    case 0
    with Cons.prems have "match_boilerplate (c # cs) = Some []"
      by (intro match_boilerplate_whole) simp_all
    with 0 show ?thesis by simp
  next
    case (Suc k)
    with Cons.prems have "\<not> marker_at (c # cs) 0" by blast
    then have n: "match_boilerplate (c # cs) = None" by (rule match_boilerplate_None)
    from Cons.prems Suc have k: "marker_at cs k" by (simp add: marker_at_Suc)
    have "\<forall>j<k. \<not> marker_at cs j"
    proof (intro allI impI)
      fix j assume "j < k"
      then have "Suc j < i" using Suc by simp
      with Cons.prems have "\<not> marker_at (c # cs) (Suc j)" by blast
      then show "\<not> marker_at cs j" by (simp add: marker_at_Suc)
    qed
    with Cons.IH [of k] Cons.prems(1) k have "re_sub_boilerplate cs = take k cs" by simp
    with n Suc show ?thesis by simp
  qed
qed

lemma re_sub_boilerplate_no_marker:
  "\<forall>j. \<not> marker_at t j \<Longrightarrow> re_sub_boilerplate t = t"
proof (induction t)
  case Nil
  show ?case by simp
next
  case (Cons c cs)
  then have n: "match_boilerplate (c # cs) = None" by (intro match_boilerplate_None) blast
  have "\<forall>j. \<not> marker_at cs j"
  proof
    fix j
    from Cons.prems have "\<not> marker_at (c # cs) (Suc j)" by blast
    then show "\<not> marker_at cs j" by (simp add: marker_at_Suc)
  qed
  with Cons.IH n show ?case by simp
qed

lemma re_sub_ws_no_newline: "10 \<notin> set (re_sub_ws c)"
  by (rule single_spaced_no_newline [OF single_spaced_re_sub_ws])

lemma example_boilerplate:
  "clean_content (Some (py ''A B copyright C'')) = Some (py ''A B'')"
  by (simp add: clean_content_def isspace_def match_boilerplate_def boilerplate_markers_def
      ignorecase_eq_def ascii_lower_def strip_def)

text \<open>
  Claim C6. In the clean-up of the fallback extractor, after the whitespace runs
  are collapsed, the text is cut at the first place where a boilerplate marker occurs,
  letter case ignored; the marker and all that follows are dropped, and the rest is
  trimmed. A text without a marker is only collapsed and trimmed. Cleaning
  \<^verbatim>\<open>A B copyright C\<close> gives exactly \<^verbatim>\<open>A B\<close>.
\<close>

theorem C6_boilerplate_truncation:
  "(c \<noteq> [] \<and> marker_at (re_sub_ws c) i \<and> (\<forall>j<i. \<not> marker_at (re_sub_ws c) j) \<longrightarrow>
      clean_content (Some c) = Some (strip (take i (re_sub_ws c)))) \<and>
   (c \<noteq> [] \<and> (\<forall>j. \<not> marker_at (re_sub_ws c) j) \<longrightarrow>
      clean_content (Some c) = Some (strip (re_sub_ws c))) \<and>
   clean_content (Some (py ''A B copyright C'')) = Some (py ''A B'')"
proof (intro conjI impI)
  assume a: "c \<noteq> [] \<and> marker_at (re_sub_ws c) i \<and> (\<forall>j<i. \<not> marker_at (re_sub_ws c) j)"
  then have "re_sub_boilerplate (re_sub_ws c) = take i (re_sub_ws c)"
    by (intro re_sub_boilerplate_first_marker re_sub_ws_no_newline) simp_all
  with a show "clean_content (Some c) = Some (strip (take i (re_sub_ws c)))"
    by (simp add: clean_content_def)
next
  assume a: "c \<noteq> [] \<and> (\<forall>j. \<not> marker_at (re_sub_ws c) j)"
  then have "re_sub_boilerplate (re_sub_ws c) = re_sub_ws c"
    by (intro re_sub_boilerplate_no_marker) simp
  with a show "clean_content (Some c) = Some (strip (re_sub_ws c))"
    by (simp add: clean_content_def)
next
  show "clean_content (Some (py ''A B copyright C'')) = Some (py ''A B'')"
    by (rule example_boilerplate)
qed

theorem C6_boilerplate_truncation_witness:
  "marker_at (re_sub_ws (py ''A B copyright C'')) 4 \<and>
   \<not> marker_at (re_sub_ws (py ''A B copyright C'')) 0 \<and>
   \<not> marker_at (re_sub_ws (py ''A B copyright C'')) 1 \<and>
   \<not> marker_at (re_sub_ws (py ''A B copyright C'')) 2 \<and>
   \<not> marker_at (re_sub_ws (py ''A B copyright C'')) 3 \<and>
   clean_content (Some (py ''A B copyright C'')) = Some (py ''A B'') \<and>
   (\<forall>j. \<not> marker_at (re_sub_ws (py ''A  B'')) j) \<and>
   clean_content (Some (py ''A  B'')) = Some (py ''A B'')"
proof -
  have t: "re_sub_ws (py ''A B copyright C'') = py ''A B copyright C''"
    by (simp add: isspace_def)
  have m: "marker_at (py ''A B copyright C'') 4"
    by (simp add: marker_at_def boilerplate_markers_def ignorecase_eq_def ascii_lower_def)
  have f0: "\<not> marker_at (py ''A B copyright C'') 0"
    and f1: "\<not> marker_at (py ''A B copyright C'') 1"
    and f2: "\<not> marker_at (py ''A B copyright C'') 2"
    and f3: "\<not> marker_at (py ''A B copyright C'') 3"
    by (simp_all add: marker_at_def boilerplate_markers_def ignorecase_eq_def ascii_lower_def)
  have f: "\<forall>j<4. \<not> marker_at (py ''A B copyright C'') j"
  proof (intro allI impI)
    fix j :: nat
    assume "j < 4"
    then consider "j = 0" | "j = 1" | "j = 2" | "j = 3" by linarith
    then show "\<not> marker_at (py ''A B copyright C'') j"
      using f0 f1 f2 f3 by cases simp_all
  qed
  have u: "re_sub_ws (py ''A  B'') = py ''A B''"
    by (simp add: isspace_def)
  have n: "\<forall>j. \<not> marker_at (py ''A B'') j"
    by (simp add: marker_at_def boilerplate_markers_def)
  have "clean_content (Some (py ''A B copyright C'')) = Some (py ''A B'')"
    using C6_boilerplate_truncation [of "py ''A B copyright C''" 4] m f
    unfolding t by (simp add: strip_def isspace_def)
  moreover have "clean_content (Some (py ''A  B'')) = Some (py ''A B'')"
    using C6_boilerplate_truncation [of "py ''A  B''"] n
    unfolding u by (simp add: strip_def isspace_def)
  ultimately show ?thesis
    using m f0 f1 f2 f3 n unfolding t u by simp
qed

section \<open>The content the fallback extractor returns\<close>

lemma marker_at_first:
  assumes "marker_at t j"
  shows "j < length t \<and> (\<exists>m \<in> set boilerplate_markers. m \<noteq> [] \<and> ignorecase_eq (hd m) (t ! j))"
proof -
  from assms obtain m where m: "m \<in> set boilerplate_markers"
    and len: "j + length m \<le> length t"
    and all: "list_all2 ignorecase_eq m (take (length m) (drop j t))"
    by (auto simp: marker_at_def)
  from m have ne: "m \<noteq> []" by (auto simp: boilerplate_markers_def)
  then have pos: "0 < length m" by simp
  with len have j: "j < length t" by linarith
  from all pos have "ignorecase_eq (m ! 0) (take (length m) (drop j t) ! 0)"
    by (rule list_all2_nthD)
  moreover have "take (length m) (drop j t) ! 0 = t ! j"
    using pos j by simp
  moreover have "m ! 0 = hd m" using ne by (simp add: hd_conv_nth)
  ultimately have "ignorecase_eq (hd m) (t ! j)" by simp
  with j m ne show ?thesis by blast
qed

lemma no_marker_at_x: "j < length t \<longrightarrow> t ! j = 120 \<Longrightarrow> \<not> marker_at t j"
proof
  assume x: "j < length t \<longrightarrow> t ! j = 120" and "marker_at t j"
  from marker_at_first [OF this(2)] x
  obtain m where "m \<in> set boilerplate_markers" "ignorecase_eq (hd m) 120"
    by auto
  then show False
    by (auto simp: boilerplate_markers_def ignorecase_eq_def ascii_lower_def)
qed

lemma clean_content_cut:
  assumes "\<forall>c \<in> set t. \<not> isspace c" and "t \<noteq> []"
    and "marker_at t i" and "\<forall>j<i. \<not> marker_at t j"
    and "\<forall>c \<in> set (take i t). \<not> isspace c"
  shows "clean_content (Some t) = Some (take i t)"
proof -
  have ws: "re_sub_ws t = t" by (rule re_sub_ws_no_space [OF assms(1)])
  have "isspace 10" by (simp add: isspace_def)
  with assms(1) have "10 \<notin> set t" by blast
  then have "re_sub_boilerplate t = take i t"
    using assms(3) assms(4) by (rule re_sub_boilerplate_first_marker)
  with ws assms(2) show ?thesis
    by (simp add: clean_content_def strip_no_space [OF assms(5)])
qed

lemma clean_content_unchanged:
  assumes "\<forall>c \<in> set t. \<not> isspace c" and "t \<noteq> []" and "\<forall>j. \<not> marker_at t j"
  shows "clean_content (Some t) = Some t"
proof -
  have "re_sub_ws t = t" by (rule re_sub_ws_no_space [OF assms(1)])
  moreover have "re_sub_boilerplate t = t" by (rule re_sub_boilerplate_no_marker [OF assms(3)])
  ultimately show ?thesis
    using assms(2) by (simp add: clean_content_def strip_no_space [OF assms(1)])
qed

lemma example_marked_clean:
  "clean_content (Some example_marked_text) = Some (replicate 100 120)"
proof -
  have 1: "\<forall>c \<in> set example_marked_text. \<not> isspace c"
    by (auto simp: example_marked_text_def isspace_def)
  have 2: "example_marked_text \<noteq> []" by (simp add: example_marked_text_def)
  have 3: "marker_at example_marked_text 100"
    by (simp add: marker_at_def example_marked_text_def boilerplate_markers_def
        ignorecase_eq_def ascii_lower_def)
  have 4: "\<forall>j<100. \<not> marker_at example_marked_text j"
  proof (intro allI impI)
    fix j :: nat
    assume "j < 100"
    then have "example_marked_text ! j = 120"
      by (simp add: example_marked_text_def nth_append)
    then show "\<not> marker_at example_marked_text j"
      by (intro no_marker_at_x) simp
  qed
  have t: "take 100 example_marked_text = replicate 100 120"
    by (simp add: example_marked_text_def)
  have 5: "\<forall>c \<in> set (take 100 example_marked_text). \<not> isspace c"
    unfolding t by (simp add: isspace_def)
  from clean_content_cut [OF 1 2 3 4 5] t show ?thesis by simp
qed

lemma example_x_clean: "clean_content (Some (replicate 200 120)) = Some (replicate 200 120)"
proof -
  have 1: "\<forall>c \<in> set (replicate 200 120). \<not> isspace c"
    by (simp add: isspace_def)
  have 2: "replicate 200 (120::nat) \<noteq> []" by simp
  have 3: "\<forall>j. \<not> marker_at (replicate 200 120) j"
    by (intro allI no_marker_at_x) simp
  from clean_content_unchanged [OF 1 2 3] show ?thesis .
qed

lemma extract_with_fallback_ok:
  assumes "session_get self url = Inr resp" and "raise_for_status url resp = Inr ()"
  shows "fst (extract_with_fallback self url tr) =
     (title_loop (parsed resp) title_selectors None,
      clean_content (resolve_content (parsed resp)), None)"
  using assms by (simp add: extract_with_fallback_def Let_def)

lemma example_page_get:
  "session_get (example_page sp) url = Inr \<lparr> status_code = 200, reason = py ''OK'', parsed = sp \<rparr>"
  "raise_for_status url \<lparr> status_code = 200, reason = py ''OK'', parsed = sp \<rparr> = Inr ()"
  by (simp_all add: example_page_def raise_for_status_def)

lemma example_no_title:
  "title_loop example_marked_soup title_selectors None = None"
  "title_loop example_article_soup title_selectors None = None"
  by (simp_all add: example_marked_soup_def example_article_soup_def title_selectors_def)

lemma example_marked_resolve:
  "resolve_content example_marked_soup = Some example_marked_text"
proof -
  have 1: "content_selectors = [] @ py ''article'' # tl content_selectors"
    by (simp add: content_selectors_def)
  have 2: "\<forall>s \<in> set []. \<forall>e'. select_one example_marked_soup s = Some e' \<longrightarrow>
      length (get_text_sep_strip e') \<le> 200"
    by simp
  have 3: "select_one example_marked_soup (py ''article'') = Some example_marked_container"
    by (simp add: example_marked_soup_def)
  have 4: "\<forall>s \<in> set (tl content_selectors). select_one example_marked_soup s = None"
    by (simp add: content_selectors_def example_marked_soup_def)
  have 5: "length (get_text_sep_strip example_marked_container) = 200"
    by (simp add: example_marked_container_def example_marked_text_def)
  from resolve_content_exactly_200 [OF 1 2 3 4 5] show ?thesis
    by (simp add: example_marked_container_def)
qed

text \<open>
  Claim C10 as stated fails on what the extractor returns: the \<^verbatim>\<open>article\<close> text
  of exactly 200 characters is the resolved content, but the clean-up of lines 140 to
  144 cuts it at the marker, and the content returned holds 100 characters.
\<close>

theorem C10_returned_content_counterexample:
  "length (get_text_sep_strip example_marked_container) = 200 \<and>
   select_one example_marked_soup (py ''article'') = Some example_marked_container \<and>
   resolve_content example_marked_soup = Some (get_text_sep_strip example_marked_container) \<and>
   fst (extract_with_fallback (example_page example_marked_soup) example_url []) =
     (None, Some (replicate 100 120), None) \<and>
   Some (replicate 100 120) \<noteq> Some (get_text_sep_strip example_marked_container)"
proof -
  have l: "length example_marked_text = 200" by (simp add: example_marked_text_def)
  have ne: "replicate 100 120 \<noteq> example_marked_text"
  proof
    assume "replicate 100 120 = example_marked_text"
    then have "length (replicate 100 (120::nat)) = length example_marked_text"
      by (rule arg_cong)
    with l show False by simp
  qed
  have "fst (extract_with_fallback (example_page example_marked_soup) example_url []) =
     (None, Some (replicate 100 120), None)"
    using extract_with_fallback_ok [OF example_page_get, of example_marked_soup example_url "[]"]
    by (simp add: example_no_title example_marked_resolve example_marked_clean)
  moreover have "select_one example_marked_soup (py ''article'') = Some example_marked_container"
    by (simp add: example_marked_soup_def)
  moreover have "get_text_sep_strip example_marked_container = example_marked_text"
    by (simp add: example_marked_container_def)
  ultimately show ?thesis
    using l ne by (simp add: example_marked_resolve)
qed

text \<open>
  Claim C10, amended. The content loop stops at a container only when its text is
  strictly longer than 200 characters, and the body replaces the candidate only when
  it is absent, empty or strictly shorter than 200 characters. So when no container
  selector yields more than 200 characters and the last selector that matches yields
  exactly 200, that text is the resolved content, whatever the body holds, and the
  content returned is the clean-up of that text: whitespace collapsed, cut at the
  first boilerplate marker, trimmed.
\<close>

theorem C10_exactly_200_cleaned:
  assumes "content_selectors = pre @ sel # post"
    and "\<forall>s \<in> set pre. \<forall>e'. select_one sp s = Some e' \<longrightarrow> length (get_text_sep_strip e') \<le> 200"
    and "select_one sp sel = Some e"
    and "\<forall>s \<in> set post. select_one sp s = None"
    and "length (get_text_sep_strip e) = 200"
    and "session_get self url = Inr resp"
    and "raise_for_status url resp = Inr ()"
    and "parsed resp = sp"
  shows "content_loop sp content_selectors None = Some (get_text_sep_strip e) \<and>
    resolve_content sp = Some (get_text_sep_strip e) \<and>
    fst (extract_with_fallback self url tr) =
      (title_loop sp title_selectors None,
       Some (strip (re_sub_boilerplate (re_sub_ws (get_text_sep_strip e)))), None)"
proof -
  note r = resolve_content_exactly_200 [OF assms(1) assms(2) assms(3) assms(4) assms(5)]
  from assms(5) have ne: "get_text_sep_strip e \<noteq> []" by auto
  have "fst (extract_with_fallback self url tr) =
     (title_loop sp title_selectors None, clean_content (resolve_content sp), None)"
    using extract_with_fallback_ok [OF assms(6) assms(7), of tr] assms(8) by simp
  with r ne show ?thesis by (simp add: clean_content_def)
qed

theorem C10_exactly_200_cleaned_witness:
  "resolve_content example_article_soup = Some (replicate 200 120) \<and>
   fst (extract_with_fallback (example_page example_article_soup) example_url []) =
     (None, Some (replicate 200 120), None)"
proof -
  have 1: "content_selectors = [] @ py ''article'' # tl content_selectors"
    by (simp add: content_selectors_def)
  have 2: "\<forall>s \<in> set []. \<forall>e'. select_one example_article_soup s = Some e' \<longrightarrow>
      length (get_text_sep_strip e') \<le> 200"
    by simp
  have 3: "select_one example_article_soup (py ''article'') = Some example_container"
    by (simp add: example_article_soup_def)
  have 4: "\<forall>s \<in> set (tl content_selectors). select_one example_article_soup s = None"
    by (simp add: content_selectors_def example_article_soup_def)
  have 5: "length (get_text_sep_strip example_container) = 200"
    by (simp add: example_container_def)
  have 6: "parsed \<lparr> status_code = 200, reason = py ''OK'', parsed = example_article_soup \<rparr> =
      example_article_soup"
    by simp
  have c: "get_text_sep_strip example_container = replicate 200 120"
    by (simp add: example_container_def)
  have x: "strip (re_sub_boilerplate (re_sub_ws (replicate 200 120))) = replicate 200 120"
    using example_x_clean by (simp add: clean_content_def)
  from C10_exactly_200_cleaned [OF 1 2 3 4 5 example_page_get 6, of example_url "[]"]
  show ?thesis
    unfolding c x by (simp add: example_no_title)
qed

end
